theory Spec2Isabelle
  imports Complex_Main "HOL-Library.AList" "HOL-Library.Char_ord" "HOL-Library.List_Lexorder"
    "HOL-Library.Product_Lexorder"
begin

section \<open>Values held by a table cell\<close>

text \<open>
  The scripts are pandas programs. A numeric column is an int64 or a float64 column. Its
  cells are held here as one type: not-a-number (how pandas stores an absent value, in a
  float64 column), one of the two infinities, or a finite number, the real that the machine
  number stands for. The sign of zero is not represented.

  The arithmetic of machine numbers is not the arithmetic of the reals: an int64 difference
  wraps around at \<open>2^63\<close>, a float64 difference is rounded and overflows to an infinity.
  Where a script subtracts, the subtraction of two finite machine numbers is therefore a
  parameter \<open>sub\<close> of the model: \<open>sub_int64\<close> for two int64 columns, the float64
  subtraction otherwise.
\<close>

datatype fval = NaN | NInf | Fin real | PInf

text \<open>The comparison \<^verbatim>\<open>x < y\<close> of two floats; every comparison with NaN is false.\<close>

fun fless :: "fval \<Rightarrow> fval \<Rightarrow> bool" where
  "fless NaN y = False"
| "fless x NaN = False"
| "fless NInf NInf = False"
| "fless NInf y = True"
| "fless (Fin a) (Fin b) = (a < b)"
| "fless (Fin a) PInf = True"
| "fless (Fin a) NInf = False"
| "fless PInf y = False"

text \<open>
  numpy's difference of two int64 values: the difference modulo \<open>2^64\<close>, read as a signed
  number. Nothing is raised when it wraps around.
\<close>

definition wrap64 :: "int \<Rightarrow> int" where
  "wrap64 x = (x + 2 ^ 63) mod 2 ^ 64 - 2 ^ 63"

definition sub_int64 :: "real \<Rightarrow> real \<Rightarrow> fval" where
  "sub_int64 a b = Fin (real_of_int (wrap64 (\<lfloor>a\<rfloor> - \<lfloor>b\<rfloor>)))"

text \<open>
  Elementwise \<^verbatim>\<open>x - y\<close>, with \<open>sub\<close> the machine's difference of two finite numbers.
  NaN and the infinities occur in float64 columns only.
\<close>

fun fsub :: "(real \<Rightarrow> real \<Rightarrow> fval) \<Rightarrow> fval \<Rightarrow> fval \<Rightarrow> fval" where
  "fsub sub NaN y = NaN"
| "fsub sub x NaN = NaN"
| "fsub sub (Fin a) (Fin b) = sub a b"
| "fsub sub (Fin a) PInf = NInf"
| "fsub sub (Fin a) NInf = PInf"
| "fsub sub PInf PInf = NaN"
| "fsub sub PInf y = PInf"
| "fsub sub NInf NInf = NaN"
| "fsub sub NInf y = NInf"

text \<open>Elementwise \<^verbatim>\<open>x + y\<close> without rounding.\<close>

fun fadd :: "fval \<Rightarrow> fval \<Rightarrow> fval" where
  "fadd NaN y = NaN"
| "fadd x NaN = NaN"
| "fadd (Fin a) (Fin b) = Fin (a + b)"
| "fadd (Fin a) y = y"
| "fadd PInf NInf = NaN"
| "fadd PInf y = PInf"
| "fadd NInf PInf = NaN"
| "fadd NInf y = NInf"

text \<open>
  Elementwise true division \<^verbatim>\<open>x / y\<close> of two numeric columns. pandas divides under
  \<^verbatim>\<open>numpy.errstate(all="ignore")\<close>: a zero divisor raises nothing and gives an
  infinity, or NaN for \<^verbatim>\<open>0 / 0\<close>.
\<close>

fun fdiv :: "fval \<Rightarrow> fval \<Rightarrow> fval" where
  "fdiv NaN y = NaN"
| "fdiv x NaN = NaN"
| "fdiv (Fin a) (Fin b) =
     (if b = 0 then (if a = 0 then NaN else if 0 < a then PInf else NInf) else Fin (a / b))"
| "fdiv (Fin a) y = Fin 0"
| "fdiv PInf (Fin b) = (if b < 0 then NInf else PInf)"
| "fdiv NInf (Fin b) = (if b < 0 then PInf else NInf)"
| "fdiv x y = NaN"

text \<open>
  \<^verbatim>\<open>Series.clip(lower=lo)\<close> on one element: a value below the bound is replaced by the
  bound, every other value (NaN too) is kept.
\<close>

definition clip_lower :: "fval \<Rightarrow> fval \<Rightarrow> fval" where
  "clip_lower lo x = (if fless x lo then lo else x)"

section \<open>Columns and frames\<close>

text \<open>
  A column has one dtype. A numeric column (int64 or float64) holds numbers. An object
  column holds text, with \<open>None\<close> for an absent cell. A datetime column holds instants (nanoseconds since the
  epoch), with \<open>None\<close> for NaT, the "not a time" marker.
\<close>

datatype column = NumCol "fval list" | ObjCol "string option list" | TimeCol "int option list"

fun col_len :: "column \<Rightarrow> nat" where
  "col_len (NumCol xs) = length xs"
| "col_len (ObjCol xs) = length xs"
| "col_len (TimeCol xs) = length xs"

text \<open>
  A DataFrame: the row labels (the index) and the columns in their order, each column as
  long as the index.
\<close>

record dataframe =
  index :: "nat list"
  cols :: "(string \<times> column) list"

definition wf_frame :: "dataframe \<Rightarrow> bool" where
  "wf_frame df \<longleftrightarrow>
     distinct (map fst (cols df)) \<and> list_all (\<lambda>(n, c). col_len c = length (index df)) (cols df)"

datatype error = KeyError string | TypeError | ValueError

text \<open>\<^verbatim>\<open>df[name]\<close>: the column of that name, KeyError when there is none.\<close>

definition getitem :: "dataframe \<Rightarrow> string \<Rightarrow> error + column" where
  "getitem df name = (case map_of (cols df) name of None \<Rightarrow> Inl (KeyError name) | Some c \<Rightarrow> Inr c)"

text \<open>
  \<^verbatim>\<open>df[name] = series\<close> for a series computed from \<^verbatim>\<open>df\<close> itself (so on the same
  index): a column of that name is replaced where it stands, a new name is added as the
  last column.
\<close>

definition setitem :: "dataframe \<Rightarrow> string \<Rightarrow> column \<Rightarrow> dataframe" where
  "setitem df name c = df\<lparr>cols := AList.update name c (cols df)\<rparr>"

text \<open>
  Arithmetic on columns works on numbers. A numeric column gives its values. An object column
  gives NaN for its absent cells, and a cell of text makes the operation a TypeError. A
  datetime column is refused as well. (A difference of two datetime columns is not needed:
  the only script that subtracts clips the result at the number 0 next, which a time
  difference refuses with the same TypeError.)
\<close>

fun as_floats :: "column \<Rightarrow> error + fval list" where
  "as_floats (NumCol xs) = Inr xs"
| "as_floats (ObjCol xs) = (if list_all (\<lambda>x. x = None) xs then Inr (map (\<lambda>x. NaN) xs) else Inl TypeError)"
| "as_floats (TimeCol xs) = Inl TypeError"

definition col_sub :: "(real \<Rightarrow> real \<Rightarrow> fval) \<Rightarrow> column \<Rightarrow> column \<Rightarrow> error + column" where
  "col_sub sub a b =
     (case as_floats a of Inl e \<Rightarrow> Inl e | Inr xs \<Rightarrow>
      case as_floats b of Inl e \<Rightarrow> Inl e | Inr ys \<Rightarrow> Inr (NumCol (map2 (fsub sub) xs ys)))"

definition col_div :: "column \<Rightarrow> column \<Rightarrow> error + column" where
  "col_div a b =
     (case as_floats a of Inl e \<Rightarrow> Inl e | Inr xs \<Rightarrow>
      case as_floats b of Inl e \<Rightarrow> Inl e | Inr ys \<Rightarrow> Inr (NumCol (map2 fdiv xs ys)))"

definition col_clip_lower :: "column \<Rightarrow> fval \<Rightarrow> error + column" where
  "col_clip_lower c lo =
     (case as_floats c of Inl e \<Rightarrow> Inl e | Inr xs \<Rightarrow> Inr (NumCol (map (clip_lower lo) xs)))"

section \<open>Trabalho 11, time-series script: derived metrics\<close>

text \<open>
  \<^verbatim>\<open>
  df["extra_steps"] = df["how_many_steps_agents_made"] - df["total_agents_path_length"]
  df["extra_steps"] = df["extra_steps"].clip(lower=0)
  \<close>
\<close>

definition create_derived_metrics :: "(real \<Rightarrow> real \<Rightarrow> fval) \<Rightarrow> dataframe \<Rightarrow> error + dataframe" where
  "create_derived_metrics sub df =
     (case getitem df ''how_many_steps_agents_made'' of Inl e \<Rightarrow> Inl e | Inr a \<Rightarrow>
      case getitem df ''total_agents_path_length'' of Inl e \<Rightarrow> Inl e | Inr b \<Rightarrow>
      case col_sub sub a b of Inl e \<Rightarrow> Inl e | Inr d \<Rightarrow>
      let df1 = setitem df ''extra_steps'' d in
      case getitem df1 ''extra_steps'' of Inl e \<Rightarrow> Inl e | Inr x \<Rightarrow>
      case col_clip_lower x (Fin 0) of Inl e \<Rightarrow> Inl e | Inr c \<Rightarrow>
      Inr (setitem df1 ''extra_steps'' c))"

section \<open>Row selection and grouping\<close>

text \<open>\<^verbatim>\<open>df[mask]\<close>: the rows whose mask entry is true, in their order, under their labels.\<close>

definition select_mask :: "bool list \<Rightarrow> 'a list \<Rightarrow> 'a list" where
  "select_mask m xs = map snd (filter fst (zip m xs))"

fun col_select :: "bool list \<Rightarrow> column \<Rightarrow> column" where
  "col_select m (NumCol xs) = NumCol (select_mask m xs)"
| "col_select m (ObjCol xs) = ObjCol (select_mask m xs)"
| "col_select m (TimeCol xs) = TimeCol (select_mask m xs)"

definition getitem_mask :: "dataframe \<Rightarrow> bool list \<Rightarrow> dataframe" where
  "getitem_mask df m =
     \<lparr>index = select_mask m (index df), cols = map (\<lambda>(n, c). (n, col_select m c)) (cols df)\<rparr>"

text \<open>
  \<^verbatim>\<open>Series.isin(values)\<close> for a list of strings: true where the cell holds one of them.
  An absent cell, a number and an instant are none of them.
\<close>

fun isin :: "column \<Rightarrow> string list \<Rightarrow> bool list" where
  "isin (ObjCol xs) vs = map (\<lambda>x. case x of None \<Rightarrow> False | Some s \<Rightarrow> s \<in> set vs) xs"
| "isin (NumCol xs) vs = map (\<lambda>x. False) xs"
| "isin (TimeCol xs) vs = map (\<lambda>x. False) xs"

text \<open>
  The key of a row of a group-by: the cell of the key column, \<open>None\<close> when the cell is
  absent. \<^verbatim>\<open>groupby\<close> runs with its default \<^verbatim>\<open>dropna=True\<close>: a row with an absent key
  is in no group.
\<close>

definition num_key :: "fval \<Rightarrow> fval option" where
  "num_key x = (if x = NaN then None else Some x)"

text \<open>
  \<^verbatim>\<open>groupby(key).tail(1)\<close> keeps the rows whose count of later rows of the same group is
  below 1, as a mask over the frame: the rows stay in the frame's order.
\<close>

fun tail_mask :: "'k option list \<Rightarrow> bool list" where
  "tail_mask [] = []"
| "tail_mask (k # ks) = ((k \<noteq> None \<and> count_list ks k < 1) # tail_mask ks)"

fun groupby_tail_mask :: "column \<Rightarrow> bool list" where
  "groupby_tail_mask (NumCol xs) = tail_mask (map num_key xs)"
| "groupby_tail_mask (ObjCol xs) = tail_mask xs"
| "groupby_tail_mask (TimeCol xs) = tail_mask xs"

text \<open>
  The groups of a group-by with its default \<^verbatim>\<open>sort=True\<close>: the distinct present keys in
  ascending order (\<open>rank\<close> gives the order of the keys), each with the positions of its rows.
\<close>

definition present :: "'k option list \<Rightarrow> 'k list" where
  "present ks = List.map_filter (\<lambda>k. k) ks"

definition positions :: "'k \<Rightarrow> 'k option list \<Rightarrow> nat list" where
  "positions k ks = filter (\<lambda>i. ks ! i = Some k) [0..<length ks]"

definition group_keys :: "('k \<Rightarrow> 'o::linorder) \<Rightarrow> 'k option list \<Rightarrow> 'k list" where
  "group_keys rank ks = sort_key rank (remdups (present ks))"

definition groups :: "('k \<Rightarrow> 'o::linorder) \<Rightarrow> 'k option list \<Rightarrow> ('k \<times> nat list) list" where
  "groups rank ks = map (\<lambda>k. (k, positions k ks)) (group_keys rank ks)"

text \<open>The order of floats that are not NaN.\<close>

fun frank :: "fval \<Rightarrow> int \<times> real" where
  "frank NInf = (- 1, 0)"
| "frank (Fin r) = (0, r)"
| "frank PInf = (1, 0)"
| "frank NaN = (2, 0)"

text \<open>
  The float64 arithmetic behind a mean: \<open>fl_sum\<close> is the sum of a list of floats none of
  which is NaN, as the group reduction accumulates it, and \<open>fl_div\<close> is a float divided by
  a count. Both round, so they are parameters of the model.
\<close>

record float_ops =
  fl_sum :: "fval list \<Rightarrow> fval"
  fl_div :: "fval \<Rightarrow> nat \<Rightarrow> fval"

text \<open>
  The arithmetic on values for which no rounding occurs (small whole numbers and the like):
  the exact sum and the exact quotient.
\<close>

definition exact_ops :: float_ops where
  "exact_ops = \<lparr>fl_sum = foldl fadd (Fin 0), fl_div = (\<lambda>s n. fdiv s (Fin (real n)))\<rparr>"

text \<open>
  What float64 does to a sum as far as its range goes: a sum of magnitude \<open>2^1024\<close> or
  more is an infinity. (The rounding of the mantissa is not represented: this is the float64
  arithmetic on values whose sums and quotients need no rounding.)
\<close>

definition overflowing :: "fval \<Rightarrow> fval" where
  "overflowing v =
     (case v of Fin r \<Rightarrow> (if 2 ^ 1024 \<le> r then PInf else if r \<le> - (2 ^ 1024) then NInf else Fin r)
      | _ \<Rightarrow> v)"

definition range_ops :: float_ops where
  "range_ops = \<lparr>fl_sum = foldl (\<lambda>s x. overflowing (fadd s x)) (Fin 0),
                fl_div = (\<lambda>s n. fdiv s (Fin (real n)))\<rparr>"

text \<open>
  The mean of a group (\<^verbatim>\<open>skipna\<close>): over the values that are not NaN, their sum divided
  by their count; NaN when there is none.
\<close>

definition group_mean :: "float_ops \<Rightarrow> fval list \<Rightarrow> fval" where
  "group_mean ops xs =
     (let ps = filter (\<lambda>x. x \<noteq> NaN) xs
      in if ps = [] then NaN else fl_div ops (fl_sum ops ps) (length ps))"

definition group_means :: "float_ops \<Rightarrow> ('k \<times> nat list) list \<Rightarrow> fval list \<Rightarrow> fval list" where
  "group_means ops gs vs = map (\<lambda>(k, ps). group_mean ops (map (\<lambda>i. vs ! i) ps)) gs"

text \<open>
  \<^verbatim>\<open>df.groupby(K)[V].mean().reset_index()\<close>: a frame of two columns, the keys and the mean
  of \<^verbatim>\<open>V\<close> in each group, one row per group. A missing column is a KeyError, a mean
  of text a TypeError, and \<^verbatim>\<open>reset_index\<close> refuses to insert a key column named like the
  value column. (The mean of a datetime column is not needed: the value column of the script
  is never the timestamp.)
\<close>

definition groupby_mean :: "float_ops \<Rightarrow> dataframe \<Rightarrow> string \<Rightarrow> string \<Rightarrow> error + dataframe" where
  "groupby_mean ops df K V =
     (case getitem df K of Inl e \<Rightarrow> Inl e | Inr kc \<Rightarrow>
      case getitem df V of Inl e \<Rightarrow> Inl e | Inr vc \<Rightarrow>
      case as_floats vc of Inl e \<Rightarrow> Inl e | Inr vs \<Rightarrow>
      if K = V then Inl ValueError
      else (case kc of
        NumCol ks \<Rightarrow>
          let gs = groups frank (map num_key ks)
          in Inr \<lparr>index = [0..<length gs],
                  cols = [(K, NumCol (map fst gs)), (V, NumCol (group_means ops gs vs))]\<rparr>
      | ObjCol ks \<Rightarrow>
          let gs = groups (\<lambda>s. s) ks
          in Inr \<lparr>index = [0..<length gs],
                  cols = [(K, ObjCol (map (Some \<circ> fst) gs)), (V, NumCol (group_means ops gs vs))]\<rparr>
      | TimeCol ks \<Rightarrow>
          let gs = groups (\<lambda>t. t) ks
          in Inr \<lparr>index = [0..<length gs],
                  cols = [(K, TimeCol (map (Some \<circ> fst) gs)), (V, NumCol (group_means ops gs vs))]\<rparr>))"





section \<open>Timestamps\<close>

text \<open>
  How pandas reads the text of a date is not part of the scripts: \<open>parse\<close> gives the
  instant a text stands for, or \<open>None\<close> when the text is not a date (for the column at
  hand: pandas reads a column in the date format of its first date), and \<open>epoch\<close> the
  instant a number stands for.

  \<^verbatim>\<open>pd.to_datetime(series, errors="coerce")\<close> converts cell by cell; what does not
  convert becomes NaT, and an absent cell is NaT.
\<close>

fun to_datetime_coerce :: "(string \<Rightarrow> int option) \<Rightarrow> (fval \<Rightarrow> int option) \<Rightarrow> column \<Rightarrow> column" where
  "to_datetime_coerce parse epoch (ObjCol xs) =
     TimeCol (map (\<lambda>x. case x of None \<Rightarrow> None | Some s \<Rightarrow> parse s) xs)"
| "to_datetime_coerce parse epoch (NumCol xs) =
     TimeCol (map (\<lambda>x. if x = NaN then None else epoch x) xs)"
| "to_datetime_coerce parse epoch (TimeCol xs) = TimeCol xs"

text \<open>
  \<^verbatim>\<open>df["timestamp"] = pd.to_datetime(df["timestamp"], errors="coerce")\<close>, the first step
  of the scripts of Trabalho 1, 4 and 5.
\<close>

definition coerce_timestamp ::
  "(string \<Rightarrow> int option) \<Rightarrow> (fval \<Rightarrow> int option) \<Rightarrow> dataframe \<Rightarrow> error + dataframe" where
  "coerce_timestamp parse epoch df =
     (case getitem df ''timestamp'' of Inl e \<Rightarrow> Inl e
      | Inr c \<Rightarrow> Inr (setitem df ''timestamp'' (to_datetime_coerce parse epoch c)))"

text \<open>
  \<^verbatim>\<open>pd.read_csv("stats.csv", parse_dates=["timestamp"])\<close>, applied to the frame as read
  without date parsing. The date converter works on the text of the cells (\<open>text_of\<close> is the
  text of a number). The column becomes a datetime column when every present cell is a date;
  when one is not, the conversion is given up and the column is returned unaltered, as an
  object column. A frame without the column is a ValueError.
\<close>

fun as_text :: "(fval \<Rightarrow> string) \<Rightarrow> column \<Rightarrow> string option list" where
  "as_text text_of (ObjCol xs) = xs"
| "as_text text_of (NumCol xs) = map (\<lambda>x. if x = NaN then None else Some (text_of x)) xs"
| "as_text text_of (TimeCol xs) = map (\<lambda>x. None) xs"

definition parses :: "(string \<Rightarrow> int option) \<Rightarrow> string option \<Rightarrow> bool" where
  "parses parse x = (case x of None \<Rightarrow> True | Some s \<Rightarrow> parse s \<noteq> None)"

fun parse_dates_col :: "(string \<Rightarrow> int option) \<Rightarrow> (fval \<Rightarrow> string) \<Rightarrow> column \<Rightarrow> column" where
  "parse_dates_col parse text_of (TimeCol xs) = TimeCol xs"
| "parse_dates_col parse text_of c =
     (let strs = as_text text_of c
      in if list_all (parses parse) strs
         then TimeCol (map (\<lambda>x. case x of None \<Rightarrow> None | Some s \<Rightarrow> parse s) strs)
         else ObjCol strs)"

definition read_csv_parse_dates ::
  "(string \<Rightarrow> int option) \<Rightarrow> (fval \<Rightarrow> string) \<Rightarrow> dataframe \<Rightarrow> error + dataframe" where
  "read_csv_parse_dates parse text_of df =
     (case getitem df ''timestamp'' of Inl e \<Rightarrow> Inl ValueError
      | Inr c \<Rightarrow> Inr (setitem df ''timestamp'' (parse_dates_col parse text_of c)))"

section \<open>What a script hands to the renderer\<close>

text \<open>
  The calls a script makes to print and to draw, in their order, with the data they carry.
  What matplotlib does with them (and whether it accepts them) is outside the model.
\<close>

datatype call =
    PrintTable dataframe
  | Bar column column
  | Plot nat column column
  | SetYlim nat fval fval

section \<open>Trabalho 5: mean cost per group on two linked axes\<close>

text \<open>
  \<^verbatim>\<open>
  start_group = df.groupby("start_points")["time_to_finish_in_micros"].mean().reset_index()
  obstacle_group = df.groupby("obstacles_amount")["time_to_finish_in_micros"].mean().reset_index()
  \<close>
\<close>

definition start_group :: "float_ops \<Rightarrow> dataframe \<Rightarrow> error + dataframe" where
  "start_group ops df = groupby_mean ops df ''start_points'' ''time_to_finish_in_micros''"





section \<open>Trabalho 11, comparison script: final results per method\<close>

text \<open>
  The script keeps a frame \<^verbatim>\<open>df\<close>, a frame \<^verbatim>\<open>final\<close> and what it has printed and drawn
  so far. Each statement either fails or gives the next state; the script stops at the
  first failure, with what was shown before it.
\<close>

record report =
  df_var :: dataframe
  final_var :: dataframe
  shown :: "call list"

fun run :: "(report \<Rightarrow> error + report) list \<Rightarrow> report \<Rightarrow> report \<times> error option" where
  "run [] s = (s, None)"
| "run (f # fs) s = (case f s of Inl e \<Rightarrow> (s, Some e) | Inr s' \<Rightarrow> run fs s')"

text \<open>\<^verbatim>\<open>df = df[df["method_name"].isin(["GRID", "PATH","ORCA"])]\<close>\<close>

definition filter_methods :: "report \<Rightarrow> error + report" where
  "filter_methods s =
     (case getitem (df_var s) ''method_name'' of Inl e \<Rightarrow> Inl e
      | Inr c \<Rightarrow> Inr (s\<lparr>df_var := getitem_mask (df_var s) (isin c [''GRID'', ''PATH'', ''ORCA''])\<rparr>))"

text \<open>\<^verbatim>\<open>final = df.groupby("method_name").tail(1).copy()\<close>\<close>

definition take_final :: "report \<Rightarrow> error + report" where
  "take_final s =
     (case getitem (df_var s) ''method_name'' of Inl e \<Rightarrow> Inl e
      | Inr c \<Rightarrow> Inr (s\<lparr>final_var := getitem_mask (df_var s) (groupby_tail_mask c)\<rparr>))"

text \<open>
  \<^verbatim>\<open>frame[[names]]\<close>: the named columns in the order of the list; a missing name is a
  KeyError (reported here for the first missing name).
\<close>

fun getitem_list :: "dataframe \<Rightarrow> string list \<Rightarrow> error + (string \<times> column) list" where
  "getitem_list d [] = Inr []"
| "getitem_list d (n # ns) =
     (case getitem d n of Inl e \<Rightarrow> Inl e | Inr c \<Rightarrow>
      case getitem_list d ns of Inl e \<Rightarrow> Inl e | Inr cs \<Rightarrow> Inr ((n, c) # cs))"

definition print_final :: "report \<Rightarrow> error + report" where
  "print_final s =
     (case getitem_list (final_var s) [''method_name'', ''collisions'', ''recalculations'',
         ''total_steps'', ''total_path_length'', ''actual_distance'', ''reached_goal_count''] of
        Inl e \<Rightarrow> Inl e
      | Inr cs \<Rightarrow> Inr (s\<lparr>shown := shown s @ [PrintTable \<lparr>index = index (final_var s), cols = cs\<rparr>]\<rparr>))"

text \<open>\<^verbatim>\<open>plt.bar(final["method_name"], final[y])\<close>\<close>

definition bar_by_method :: "string \<Rightarrow> report \<Rightarrow> error + report" where
  "bar_by_method y s =
     (case getitem (final_var s) ''method_name'' of Inl e \<Rightarrow> Inl e | Inr xc \<Rightarrow>
      case getitem (final_var s) y of Inl e \<Rightarrow> Inl e | Inr yc \<Rightarrow>
      Inr (s\<lparr>shown := shown s @ [Bar xc yc]\<rparr>))"

text \<open>\<^verbatim>\<open>final["path_efficiency"] = final["total_path_length"] / final["actual_distance"]\<close>\<close>

definition path_efficiency :: "report \<Rightarrow> error + report" where
  "path_efficiency s =
     (case getitem (final_var s) ''total_path_length'' of Inl e \<Rightarrow> Inl e | Inr a \<Rightarrow>
      case getitem (final_var s) ''actual_distance'' of Inl e \<Rightarrow> Inl e | Inr b \<Rightarrow>
      case col_div a b of Inl e \<Rightarrow> Inl e
      | Inr c \<Rightarrow> Inr (s\<lparr>final_var := setitem (final_var s) ''path_efficiency'' c\<rparr>))"

definition comparison_script :: "(report \<Rightarrow> error + report) list" where
  "comparison_script =
     [filter_methods, take_final, print_final,
      bar_by_method ''collisions'', bar_by_method ''total_steps'',
      path_efficiency, bar_by_method ''path_efficiency'', bar_by_method ''actual_distance'']"

text \<open>The script on the frame read from the file.\<close>

definition compare_methods :: "dataframe \<Rightarrow> report \<times> error option" where
  "compare_methods d = run comparison_script \<lparr>df_var = d, final_var = \<lparr>index = [], cols = []\<rparr>, shown = []\<rparr>"

text \<open>
  Every cell of a column of method names is one of the three labels the script keeps (an
  absent cell is not).
\<close>

definition known_methods :: "column \<Rightarrow> bool" where
  "known_methods c = list_all (\<lambda>b. b) (isin c [''GRID'', ''PATH'', ''ORCA''])"

text \<open>
  What the comparison script is to maintain: the method column of \<^verbatim>\<open>df\<close> and of
  \<^verbatim>\<open>final\<close>, the categories of every bar chart and the method column of every printed
  table hold the three labels only.
\<close>

definition labels_kept :: "report \<Rightarrow> bool" where
  "labels_kept s \<longleftrightarrow>
     (\<forall>c. getitem (df_var s) ''method_name'' = Inr c \<longrightarrow> known_methods c) \<and>
     (\<forall>c. getitem (final_var s) ''method_name'' = Inr c \<longrightarrow> known_methods c) \<and>
     (\<forall>x y. Bar x y \<in> set (shown s) \<longrightarrow> known_methods x) \<and>
     (\<forall>t c. PrintTable t \<in> set (shown s) \<and> getitem t ''method_name'' = Inr c \<longrightarrow> known_methods c)"


section \<open>Basic facts\<close>

lemma map_of_update: "map_of (AList.update k v al) k' = (if k' = k then Some v else map_of al k')"
  by (simp add: update_conv')

lemma getitem_setitem: "getitem (setitem df n c) m = (if m = n then Inr c else getitem df m)"
  by (simp add: getitem_def setitem_def map_of_update)

lemma index_setitem: "index (setitem df n c) = index df"
  by (simp add: setitem_def)





lemma create_derived_metrics_numeric:
  assumes "getitem df ''how_many_steps_agents_made'' = Inr (NumCol xs)"
    and "getitem df ''total_agents_path_length'' = Inr (NumCol ys)"
  shows "create_derived_metrics sub df =
    Inr (setitem (setitem df ''extra_steps'' (NumCol (map2 (fsub sub) xs ys))) ''extra_steps''
      (NumCol (map (clip_lower (Fin 0)) (map2 (fsub sub) xs ys))))"
  using assms
  by (simp add: create_derived_metrics_def getitem_setitem col_sub_def col_clip_lower_def)

section \<open>The clipped difference\<close>






lemma tail_mask_nth:
  "i < length ks \<Longrightarrow> tail_mask ks ! i \<longleftrightarrow> (ks ! i \<noteq> None \<and> ks ! i \<notin> set (drop (Suc i) ks))"
proof (induction ks arbitrary: i)
  case Nil
  then show ?case by simp
next
  case (Cons k ks)
  show ?case
  proof (cases i)
    case 0
    then show ?thesis by (simp add: count_list_0_iff)
  next
    case (Suc j)
    with Cons show ?thesis by simp
  qed
qed

lemma tail_mask_last_of_group:
  assumes "i < length ks"
  shows "tail_mask ks ! i \<longleftrightarrow> (ks ! i \<noteq> None \<and> (\<forall>j<length ks. ks ! j = ks ! i \<longrightarrow> j \<le> i))"
proof -
  have "ks ! i \<in> set (drop (Suc i) ks) \<longleftrightarrow> (\<exists>j<length ks. i < j \<and> ks ! j = ks ! i)"
  proof
    assume "ks ! i \<in> set (drop (Suc i) ks)"
    then obtain n where n: "n < length (drop (Suc i) ks)" "drop (Suc i) ks ! n = ks ! i"
      by (auto simp: in_set_conv_nth)
    then have "Suc i + n < length ks" "ks ! (Suc i + n) = ks ! i" by auto
    then show "\<exists>j<length ks. i < j \<and> ks ! j = ks ! i" by (intro exI[of _ "Suc i + n"]) simp
  next
    assume "\<exists>j<length ks. i < j \<and> ks ! j = ks ! i"
    then obtain j where j: "j < length ks" "i < j" "ks ! j = ks ! i" by blast
    then have "drop (Suc i) ks ! (j - Suc i) = ks ! i" "j - Suc i < length (drop (Suc i) ks)"
      by auto
    then show "ks ! i \<in> set (drop (Suc i) ks)" by (metis nth_mem)
  qed
  then show ?thesis
    using assms by (auto simp: tail_mask_nth not_le)
qed

lemma select_mask_Cons: "select_mask (m # ms) (x # xs) = (if m then x # select_mask ms xs else select_mask ms xs)"
  by (simp add: select_mask_def)

lemma select_mask_Nil: "select_mask [] xs = []" "select_mask ms [] = []"
  by (simp_all add: select_mask_def)


lemma set_select_mask: "set (select_mask m xs) \<subseteq> set xs"
  unfolding select_mask_def by (auto dest: set_zip_rightD)

lemma select_mask_map: "select_mask m (map f xs) = map f (select_mask m xs)"
  unfolding select_mask_def
  by (induction m xs rule: list_induct2') auto

section \<open>Division by zero in the path efficiency\<close>

lemma fdiv_zero_divisor:
  "fdiv x (Fin 0) = (case x of NaN \<Rightarrow> NaN | Fin a \<Rightarrow> (if a = 0 then NaN else if 0 < a then PInf else NInf)
     | PInf \<Rightarrow> PInf | NInf \<Rightarrow> NInf)"
  by (cases x) simp_all

lemma path_efficiency_numeric:
  assumes "getitem (final_var s) ''total_path_length'' = Inr (NumCol xs)"
    and "getitem (final_var s) ''actual_distance'' = Inr (NumCol ys)"
  shows "path_efficiency s =
    Inr (s\<lparr>final_var := setitem (final_var s) ''path_efficiency'' (NumCol (map2 fdiv xs ys))\<rparr>)"
  using assms by (simp add: path_efficiency_def col_div_def)

text \<open>
  C3, as stated, fails: planned length 12 over actual distance 0 gives positive infinity
  in the path efficiency column, not an absent value.
\<close>

theorem path_efficiency_zero_distance_counterexample:
  "path_efficiency
     \<lparr>df_var = \<lparr>index = [], cols = []\<rparr>,
      final_var = \<lparr>index = [0], cols = [(''method_name'', ObjCol [Some ''GRID'']),
         (''total_path_length'', NumCol [Fin 12]), (''actual_distance'', NumCol [Fin 0])]\<rparr>,
      shown = []\<rparr>
   = Inr \<lparr>df_var = \<lparr>index = [], cols = []\<rparr>,
      final_var = \<lparr>index = [0], cols = [(''method_name'', ObjCol [Some ''GRID'']),
         (''total_path_length'', NumCol [Fin 12]), (''actual_distance'', NumCol [Fin 0]),
         (''path_efficiency'', NumCol [PInf])]\<rparr>,
      shown = []\<rparr>"
  by (simp add: path_efficiency_def getitem_def setitem_def col_div_def)

text \<open>
  C3, amended. With numeric length and distance columns the division never fails. On a
  row whose distance is zero the ratio is an infinity when the planned length is not zero
  (itself infinite, or finite and non-zero), and absent (NaN) only when the planned length is
  zero or absent.
\<close>

theorem path_efficiency_zero_distance:
  assumes "getitem (final_var s) ''total_path_length'' = Inr (NumCol xs)"
    and "getitem (final_var s) ''actual_distance'' = Inr (NumCol ys)"
    and "length xs = length ys"
  shows "\<exists>s' es. path_efficiency s = Inr s'
    \<and> getitem (final_var s') ''path_efficiency'' = Inr (NumCol es)
    \<and> length es = length xs
    \<and> (\<forall>i<length es. ys ! i = Fin 0 \<longrightarrow>
          (if xs ! i = NaN \<or> xs ! i = Fin 0 then es ! i = NaN
           else es ! i = PInf \<or> es ! i = NInf))"
proof -
  let ?es = "map2 fdiv xs ys"
  let ?s' = "s\<lparr>final_var := setitem (final_var s) ''path_efficiency'' (NumCol ?es)\<rparr>"
  have run: "path_efficiency s = Inr ?s'"
    using assms(1,2) by (rule path_efficiency_numeric)
  have col: "getitem (final_var ?s') ''path_efficiency'' = Inr (NumCol ?es)"
    by (simp add: getitem_setitem)
  have len: "length ?es = length xs"
    using assms(3) by simp
  have pt: "if xs ! i = NaN \<or> xs ! i = Fin 0 then ?es ! i = NaN else ?es ! i = PInf \<or> ?es ! i = NInf"
    if "i < length ?es" "ys ! i = Fin 0" for i
  proof -
    from that assms(3) have "?es ! i = fdiv (xs ! i) (Fin 0)" by simp
    then show ?thesis
      by (cases "xs ! i") (simp_all add: fdiv_zero_divisor)
  qed
  from run col len pt show ?thesis by blast
qed

theorem path_efficiency_zero_distance_witness:
  "\<exists>s' es. path_efficiency
       \<lparr>df_var = \<lparr>index = [], cols = []\<rparr>,
        final_var = \<lparr>index = [0, 1], cols = [(''total_path_length'', NumCol [Fin 12, Fin 0]),
          (''actual_distance'', NumCol [Fin 0, Fin 0])]\<rparr>,
        shown = []\<rparr> = Inr s'
    \<and> getitem (final_var s') ''path_efficiency'' = Inr (NumCol es)
    \<and> length es = 2 \<and> (es ! 0 = PInf \<or> es ! 0 = NInf) \<and> es ! 1 = NaN"
proof -
  let ?s = "\<lparr>df_var = \<lparr>index = [], cols = []\<rparr>,
        final_var = \<lparr>index = [0, 1], cols = [(''total_path_length'', NumCol [Fin 12, Fin 0]),
          (''actual_distance'', NumCol [Fin 0, Fin 0])]\<rparr>,
        shown = []\<rparr>"
  have a: "getitem (final_var ?s) ''total_path_length'' = Inr (NumCol [Fin 12, Fin 0])"
    by (simp add: getitem_def)
  have b: "getitem (final_var ?s) ''actual_distance'' = Inr (NumCol [Fin 0, Fin 0])"
    by (simp add: getitem_def)
  have l: "length [Fin 12, Fin 0] = length [Fin 0, Fin (0::real)]"
    by simp
  from path_efficiency_zero_distance [OF a b l]
  obtain s' es where r: "path_efficiency ?s = Inr s'"
    "getitem (final_var s') ''path_efficiency'' = Inr (NumCol es)" "length es = 2"
    and p: "\<forall>i<length es. [Fin 0, Fin (0::real)] ! i = Fin 0 \<longrightarrow>
          (if [Fin 12, Fin 0] ! i = NaN \<or> [Fin 12, Fin (0::real)] ! i = Fin 0 then es ! i = NaN
           else es ! i = PInf \<or> es ! i = NInf)"
    by auto
  from p r(3) have "es ! 0 = PInf \<or> es ! 0 = NInf" by simp
  moreover from p r(3) have "es ! 1 = NaN" by simp
  ultimately show ?thesis using r by auto
qed

section \<open>Only the three methods are reported\<close>

lemma getitem_getitem_mask:
  "getitem (getitem_mask d m) n = (case getitem d n of Inl e \<Rightarrow> Inl e | Inr c \<Rightarrow> Inr (col_select m c))"
  by (simp add: getitem_def getitem_mask_def map_of_map split: option.splits)

lemma isin_col_select: "isin (col_select m c) vs = select_mask m (isin c vs)"
  by (cases c) (simp_all add: select_mask_map)

lemma list_all_select_mask: "list_all P xs \<Longrightarrow> list_all P (select_mask m xs)"
  using set_select_mask [of m xs] by (auto simp: list_all_iff)

lemma select_mask_self: "list_all (\<lambda>b. b) (select_mask m m)"
  by (induction m) (simp_all add: select_mask_Cons select_mask_Nil)

lemma known_methods_col_select: "known_methods c \<Longrightarrow> known_methods (col_select m c)"
  by (simp add: known_methods_def isin_col_select list_all_select_mask)

lemma known_methods_filtered: "known_methods (col_select (isin c [''GRID'', ''PATH'', ''ORCA'']) c)"
  by (simp add: known_methods_def isin_col_select select_mask_self)

lemma getitem_list_method:
  "getitem_list d ns = Inr cs \<Longrightarrow> map_of cs n = Some c \<Longrightarrow> getitem d n = Inr c"
  by (induction ns arbitrary: cs) (auto split: sum.splits if_splits)

lemma filter_methods_establishes:
  assumes "filter_methods s = Inr s'"
  shows "final_var s' = final_var s" "shown s' = shown s"
    "getitem (df_var s') ''method_name'' = Inr c \<Longrightarrow> known_methods c"
  using assms
  by (auto simp: filter_methods_def getitem_getitem_mask known_methods_filtered split: sum.splits)

lemma filter_methods_fails:
  "filter_methods s = Inl e \<Longrightarrow> getitem (df_var s) ''method_name'' = Inl e"
  by (auto simp: filter_methods_def split: sum.splits)

lemma take_final_keeps:
  assumes K: "labels_kept s" and R: "take_final s = Inr s'"
  shows "labels_kept s'"
proof -
  from R obtain c where c: "getitem (df_var s) ''method_name'' = Inr c"
    and s': "s' = s\<lparr>final_var := getitem_mask (df_var s) (groupby_tail_mask c)\<rparr>"
    by (auto simp: take_final_def split: sum.splits)
  from K c have kc: "known_methods c"
    by (simp add: labels_kept_def)
  have "getitem (final_var s') ''method_name'' = Inr (col_select (groupby_tail_mask c) c)"
    using c s' by (simp add: getitem_getitem_mask)
  with kc have f: "\<forall>c'. getitem (final_var s') ''method_name'' = Inr c' \<longrightarrow> known_methods c'"
    by (simp add: known_methods_col_select)
  have "df_var s' = df_var s" "shown s' = shown s"
    using s' by simp_all
  with f K show ?thesis
    unfolding labels_kept_def by simp
qed

lemma print_final_keeps:
  assumes K: "labels_kept s" and R: "print_final s = Inr s'"
  shows "labels_kept s'"
proof -
  from R obtain cs where cs: "getitem_list (final_var s) [''method_name'', ''collisions'',
      ''recalculations'', ''total_steps'', ''total_path_length'', ''actual_distance'',
      ''reached_goal_count''] = Inr cs"
    and s': "s' = s\<lparr>shown := shown s @ [PrintTable \<lparr>index = index (final_var s), cols = cs\<rparr>]\<rparr>"
    by (auto simp: print_final_def simp del: getitem_list.simps split: sum.splits)
  have t: "known_methods c"
    if "getitem \<lparr>index = index (final_var s), cols = cs\<rparr> ''method_name'' = Inr c" for c
  proof -
    from that have "map_of cs ''method_name'' = Some c"
      by (simp add: getitem_def split: option.splits)
    with cs have "getitem (final_var s) ''method_name'' = Inr c"
      by (rule getitem_list_method)
    with K show ?thesis by (simp add: labels_kept_def)
  qed
  have e: "df_var s' = df_var s" "final_var s' = final_var s"
    "set (shown s') = insert (PrintTable \<lparr>index = index (final_var s), cols = cs\<rparr>) (set (shown s))"
    using s' by simp_all
  from K have k: "\<forall>x y. Bar x y \<in> set (shown s) \<longrightarrow> known_methods x"
    "\<forall>t c. PrintTable t \<in> set (shown s) \<and> getitem t ''method_name'' = Inr c \<longrightarrow> known_methods c"
    by (simp_all add: labels_kept_def)
  have "\<forall>x y. Bar x y \<in> set (shown s') \<longrightarrow> known_methods x"
    using k(1) unfolding e by simp
  moreover have "\<forall>t c. PrintTable t \<in> set (shown s') \<and> getitem t ''method_name'' = Inr c
      \<longrightarrow> known_methods c"
    using k(2) t unfolding e by auto
  ultimately show ?thesis
    using K unfolding labels_kept_def e(1,2) by blast
qed

lemma bar_by_method_keeps:
  assumes K: "labels_kept s" and R: "bar_by_method y s = Inr s'"
  shows "labels_kept s'"
proof -
  from R obtain xc yc where xc: "getitem (final_var s) ''method_name'' = Inr xc"
    and s': "s' = s\<lparr>shown := shown s @ [Bar xc yc]\<rparr>"
    by (auto simp: bar_by_method_def split: sum.splits)
  from K xc have kx: "known_methods xc"
    by (simp add: labels_kept_def)
  have e: "df_var s' = df_var s" "final_var s' = final_var s"
    "set (shown s') = insert (Bar xc yc) (set (shown s))"
    using s' by simp_all
  from K have k: "\<forall>x y. Bar x y \<in> set (shown s) \<longrightarrow> known_methods x"
    "\<forall>t c. PrintTable t \<in> set (shown s) \<and> getitem t ''method_name'' = Inr c \<longrightarrow> known_methods c"
    by (simp_all add: labels_kept_def)
  have "\<forall>x y. Bar x y \<in> set (shown s') \<longrightarrow> known_methods x"
    using k(1) kx unfolding e by auto
  moreover have "\<forall>t c. PrintTable t \<in> set (shown s') \<and> getitem t ''method_name'' = Inr c
      \<longrightarrow> known_methods c"
    using k(2) unfolding e by simp
  ultimately show ?thesis
    using K unfolding labels_kept_def e(1,2) by blast
qed

lemma path_efficiency_keeps:
  assumes K: "labels_kept s" and R: "path_efficiency s = Inr s'"
  shows "labels_kept s'"
proof -
  from R obtain c where s': "s' = s\<lparr>final_var := setitem (final_var s) ''path_efficiency'' c\<rparr>"
    by (auto simp: path_efficiency_def split: sum.splits)
  have e: "df_var s' = df_var s" "shown s' = shown s"
    "getitem (final_var s') ''method_name'' = getitem (final_var s) ''method_name''"
    using s' by (simp_all add: getitem_setitem)
  from K show ?thesis
    unfolding labels_kept_def e by simp
qed

lemma run_keeps:
  assumes "\<And>f s s'. f \<in> set fs \<Longrightarrow> labels_kept s \<Longrightarrow> f s = Inr s' \<Longrightarrow> labels_kept s'"
    and "labels_kept s" and "run fs s = (s', err)"
  shows "labels_kept s'"
  using assms
proof (induction fs arbitrary: s)
  case Nil
  from Nil(2,3) show ?case by simp
next
  case (Cons f fs)
  show ?case
  proof (cases "f s")
    case (Inl e)
    with Cons.prems(2,3) show ?thesis by simp
  next
    case (Inr s1)
    with Cons.prems(3) have r: "run fs s1 = (s', err)" by simp
    have "f \<in> set (f # fs)" by simp
    from Cons.prems(1) [OF this Cons.prems(2) Inr] have k: "labels_kept s1" .
    have "labels_kept t'" if "g \<in> set fs" "labels_kept t" "g t = Inr t'" for g t t'
    proof -
      from that(1) have "g \<in> set (f # fs)" by simp
      from Cons.prems(1) [OF this that(2,3)] show ?thesis .
    qed
    from Cons.IH [OF this k r] show ?thesis .
  qed
qed

text \<open>
  C10. Whatever frame the comparison script is given and however far it gets (\<open>err\<close> is
  the error it stopped with, if any), the method column of the filtered frame and of
  \<^verbatim>\<open>final\<close>, the categories of every bar chart drawn and the method column of the printed
  table hold no label but GRID, PATH and ORCA: a record with another label, or with none, has
  been removed before the grouping.
\<close>

theorem compare_methods_only_known_labels:
  assumes "compare_methods d = (s, err)"
  shows "(\<forall>c. getitem (df_var s) ''method_name'' = Inr c \<longrightarrow> known_methods c)
    \<and> (\<forall>c. getitem (final_var s) ''method_name'' = Inr c \<longrightarrow> known_methods c)
    \<and> (\<forall>x y. Bar x y \<in> set (shown s) \<longrightarrow> known_methods x)
    \<and> (\<forall>t c. PrintTable t \<in> set (shown s) \<and> getitem t ''method_name'' = Inr c
          \<longrightarrow> known_methods c)"
proof -
  let ?s0 = "\<lparr>df_var = d, final_var = \<lparr>index = [], cols = []\<rparr>, shown = []\<rparr>"
  let ?rest = "[take_final, print_final, bar_by_method ''collisions'',
      bar_by_method ''total_steps'', path_efficiency, bar_by_method ''path_efficiency'',
      bar_by_method ''actual_distance'']"
  have rest: "labels_kept t'" if "f \<in> set ?rest" "labels_kept t" "f t = Inr t'" for f t t'
  proof -
    from that(1) consider "f = take_final" | "f = print_final" | "f = path_efficiency"
      | y where "f = bar_by_method y"
      by auto
    then show ?thesis
    proof cases
      case 1
      with that(3) have "take_final t = Inr t'" by simp
      with that(2) show ?thesis by (rule take_final_keeps)
    next
      case 2
      with that(3) have "print_final t = Inr t'" by simp
      with that(2) show ?thesis by (rule print_final_keeps)
    next
      case 3
      with that(3) have "path_efficiency t = Inr t'" by simp
      with that(2) show ?thesis by (rule path_efficiency_keeps)
    next
      case 4
      with that(3) have "bar_by_method y t = Inr t'" by simp
      with that(2) show ?thesis by (rule bar_by_method_keeps)
    qed
  qed
  have run0: "run (filter_methods # ?rest) ?s0 = (s, err)"
    using assms by (simp only: compare_methods_def comparison_script_def)
  have "labels_kept s"
  proof (cases "filter_methods ?s0")
    case (Inl e)
    with run0 have s: "s = ?s0" by simp
    from Inl have "getitem (df_var ?s0) ''method_name'' = Inl e"
      by (rule filter_methods_fails)
    then show ?thesis
      unfolding s labels_kept_def by (simp add: getitem_def)
  next
    case (Inr s1)
    from filter_methods_establishes [OF Inr] have "labels_kept s1"
      unfolding labels_kept_def by (simp add: getitem_def)
    then have k: "labels_kept s1" .
    from run0 Inr have r: "run ?rest s1 = (s, err)" by simp
    from rest k r show ?thesis by (rule run_keeps)
  qed
  then show ?thesis
    unfolding labels_kept_def .
qed

theorem compare_methods_only_known_labels_witness:
  "snd (compare_methods \<lparr>index = [0, 1, 2, 3, 4], cols = [
      (''method_name'', ObjCol [Some ''GRID'', Some ''RVO'', Some ''GRID'', None, Some ''PATH'']),
      (''collisions'', NumCol [Fin 3, Fin 8, Fin 5, Fin 2, Fin 1]),
      (''recalculations'', NumCol [Fin 0, Fin 0, Fin 0, Fin 0, Fin 0]),
      (''total_steps'', NumCol [Fin 10, Fin 10, Fin 20, Fin 5, Fin 10]),
      (''total_path_length'', NumCol [Fin 4, Fin 4, Fin 8, Fin 1, Fin 6]),
      (''actual_distance'', NumCol [Fin 2, Fin 2, Fin 4, Fin 1, Fin 3]),
      (''reached_goal_count'', NumCol [Fin 1, Fin 1, Fin 2, Fin 0, Fin 1])]\<rparr>) = None
   \<and> Bar (ObjCol [Some ''GRID'', Some ''PATH'']) (NumCol [Fin 5, Fin 1])
      \<in> set (shown (fst (compare_methods \<lparr>index = [0, 1, 2, 3, 4], cols = [
      (''method_name'', ObjCol [Some ''GRID'', Some ''RVO'', Some ''GRID'', None, Some ''PATH'']),
      (''collisions'', NumCol [Fin 3, Fin 8, Fin 5, Fin 2, Fin 1]),
      (''recalculations'', NumCol [Fin 0, Fin 0, Fin 0, Fin 0, Fin 0]),
      (''total_steps'', NumCol [Fin 10, Fin 10, Fin 20, Fin 5, Fin 10]),
      (''total_path_length'', NumCol [Fin 4, Fin 4, Fin 8, Fin 1, Fin 6]),
      (''actual_distance'', NumCol [Fin 2, Fin 2, Fin 4, Fin 1, Fin 3]),
      (''reached_goal_count'', NumCol [Fin 1, Fin 1, Fin 2, Fin 0, Fin 1])]\<rparr>)))
   \<and> known_methods (ObjCol [Some ''GRID'', Some ''PATH''])"
proof -
  let ?d = "\<lparr>index = [0, 1, 2, 3, 4], cols = [
      (''method_name'', ObjCol [Some ''GRID'', Some ''RVO'', Some ''GRID'', None, Some ''PATH'']),
      (''collisions'', NumCol [Fin 3, Fin 8, Fin 5, Fin 2, Fin 1]),
      (''recalculations'', NumCol [Fin 0, Fin 0, Fin 0, Fin 0, Fin 0]),
      (''total_steps'', NumCol [Fin 10, Fin 10, Fin 20, Fin 5, Fin 10]),
      (''total_path_length'', NumCol [Fin 4, Fin 4, Fin 8, Fin 1, Fin 6]),
      (''actual_distance'', NumCol [Fin 2, Fin 2, Fin 4, Fin 1, Fin 3]),
      (''reached_goal_count'', NumCol [Fin 1, Fin 1, Fin 2, Fin 0, Fin 1])]\<rparr>"
  have e: "snd (compare_methods ?d) = None"
    by (simp add: compare_methods_def comparison_script_def filter_methods_def take_final_def
        print_final_def bar_by_method_def path_efficiency_def getitem_def getitem_mask_def
        select_mask_def setitem_def col_div_def)
  have b: "Bar (ObjCol [Some ''GRID'', Some ''PATH'']) (NumCol [Fin 5, Fin 1])
      \<in> set (shown (fst (compare_methods ?d)))"
    by (simp add: compare_methods_def comparison_script_def filter_methods_def take_final_def
        print_final_def bar_by_method_def path_efficiency_def getitem_def getitem_mask_def
        select_mask_def setitem_def col_div_def)
  have "compare_methods ?d = (fst (compare_methods ?d), snd (compare_methods ?d))"
    by simp
  from compare_methods_only_known_labels [OF this] b
  have "known_methods (ObjCol [Some ''GRID'', Some ''PATH''])"
    by blast
  with e b show ?thesis by blast
qed

section \<open>Groups\<close>

lemma set_present: "set (present ks) = {k. Some k \<in> set ks}"
  unfolding present_def by (induction ks) (auto split: option.splits)

lemma set_group_keys: "set (group_keys rank ks) = {k. Some k \<in> set ks}"
  by (simp add: group_keys_def set_present)

lemma distinct_group_keys: "distinct (group_keys rank ks)"
  by (simp add: group_keys_def)


lemma set_positions: "set (positions k ks) = {i. i < length ks \<and> ks ! i = Some k}"
  by (auto simp: positions_def)

lemma distinct_positions: "distinct (positions k ks)"
  by (simp add: positions_def)

lemma sorted_positions: "sorted (positions k ks)"
  by (simp add: positions_def sorted_filter [where f = "\<lambda>x. x", simplified])

lemma sorted_le_last: "sorted xs \<Longrightarrow> x \<in> set xs \<Longrightarrow> x \<le> last xs"
  by (induction xs) auto

lemma map_fst_groups: "map fst (groups rank ks) = group_keys rank ks"
  by (simp add: groups_def comp_def)

lemma in_groups: "(k, ps) \<in> set (groups rank ks) \<longleftrightarrow> Some k \<in> set ks \<and> ps = positions k ks"
  by (auto simp: groups_def set_group_keys)

lemma positions_nonempty: "Some k \<in> set ks \<Longrightarrow> positions k ks \<noteq> []"
proof -
  assume "Some k \<in> set ks"
  then obtain i where "i < length ks" "ks ! i = Some k"
    by (auto simp: in_set_conv_nth)
  then have "i \<in> set (positions k ks)"
    by (simp add: set_positions)
  then show ?thesis by auto
qed

lemma last_positions:
  assumes "i \<in> set (positions k ks)"
  shows "i = last (positions k ks) \<longleftrightarrow> (\<forall>j<length ks. ks ! j = Some k \<longrightarrow> j \<le> i)"
proof -
  let ?ps = "positions k ks"
  from assms have ne: "?ps \<noteq> []" by auto
  have le: "j \<le> last ?ps" if "j \<in> set ?ps" for j
    using sorted_positions that by (rule sorted_le_last)
  have mem: "last ?ps \<in> set ?ps"
    using ne by simp
  show ?thesis
  proof
    assume "i = last ?ps"
    with le show "\<forall>j<length ks. ks ! j = Some k \<longrightarrow> j \<le> i"
      by (simp add: set_positions)
  next
    assume a: "\<forall>j<length ks. ks ! j = Some k \<longrightarrow> j \<le> i"
    from mem have "last ?ps < length ks" "ks ! last ?ps = Some k"
      by (simp_all add: set_positions)
    with a have "last ?ps \<le> i" by blast
    moreover from assms have "i \<le> last ?ps" by (rule le)
    ultimately show "i = last ?ps" by simp
  qed
qed


lemma group_of_row:
  assumes "i < length ks" "ks ! i = Some k"
  shows "(k, positions k ks) \<in> set (groups rank ks)" "i \<in> set (positions k ks)"
proof -
  from assms have "Some k \<in> set ks" by (metis nth_mem)
  then show "(k, positions k ks) \<in> set (groups rank ks)" by (simp add: in_groups)
  from assms show "i \<in> set (positions k ks)" by (simp add: set_positions)
qed

lemma row_of_group:
  assumes "g \<in> set (groups rank ks)" "i \<in> set (snd g)"
  shows "i < length ks" "ks ! i = Some (fst g)" "snd g = positions (fst g) ks"
proof -
  obtain k ps where g: "g = (k, ps)" by (cases g)
  from assms(1) have ps: "ps = positions k ks"
    unfolding g by (simp add: in_groups)
  from assms(2) have "i \<in> set (positions k ks)"
    unfolding g ps by simp
  then show "i < length ks" "ks ! i = Some (fst g)"
    unfolding g by (simp_all add: set_positions)
  from ps show "snd g = positions (fst g) ks"
    unfolding g by simp
qed

lemma tail_mask_in_group:
  assumes "g \<in> set (groups rank ks)" "i \<in> set (snd g)"
  shows "tail_mask ks ! i \<longleftrightarrow> i = last (snd g)"
proof -
  from row_of_group [OF assms] have i: "i < length ks" and k: "ks ! i = Some (fst g)"
    and g: "snd g = positions (fst g) ks"
    by simp_all
  from assms(2) g have "i \<in> set (positions (fst g) ks)" by simp
  from last_positions [OF this] k i show ?thesis
    by (simp add: tail_mask_last_of_group g)
qed

section \<open>Groups and the records they hold\<close>

text \<open>
  C4, as stated, fails: a record whose key cell is absent belongs to no group. Of the two
  records below only the first is in a group, and the mean per start point is taken without
  the second.
\<close>

theorem groups_drop_absent_key_counterexample:
  "groups frank (map num_key [Fin 5, NaN]) = [(Fin 5, [0])]
   \<and> start_group exact_ops \<lparr>index = [0, 1], cols = [(''start_points'', NumCol [Fin 5, NaN]),
        (''time_to_finish_in_micros'', NumCol [Fin 10, Fin 20])]\<rparr>
     = Inr \<lparr>index = [0], cols = [(''start_points'', NumCol [Fin 5]),
        (''time_to_finish_in_micros'', NumCol [Fin 10])]\<rparr>"
  by code_simp

text \<open>
  C4, amended. For every list of row keys and every order of the keys, the groups are an
  exact partition of the records whose key is present: the groups have distinct keys, a record
  with a present key is in exactly one group, a record with an absent key is in none, the
  union of the groups is the set of records with a present key, two different groups share no
  record, and the row that \<^verbatim>\<open>tail(1)\<close> keeps of a group is its last member.
\<close>

theorem groups_partition_present_keys:
  "distinct (map fst (groups rank ks))
   \<and> (\<forall>i<length ks. ks ! i \<noteq> None \<longrightarrow> (\<exists>!g. g \<in> set (groups rank ks) \<and> i \<in> set (snd g)))
   \<and> (\<forall>i<length ks. ks ! i = None \<longrightarrow> \<not> (\<exists>g. g \<in> set (groups rank ks) \<and> i \<in> set (snd g)))
   \<and> (\<Union>g\<in>set (groups rank ks). set (snd g)) = {i. i < length ks \<and> ks ! i \<noteq> None}
   \<and> (\<forall>g\<in>set (groups rank ks). \<forall>h\<in>set (groups rank ks). g \<noteq> h \<longrightarrow> set (snd g) \<inter> set (snd h) = {})
   \<and> (\<forall>g\<in>set (groups rank ks). \<forall>i\<in>set (snd g). tail_mask ks ! i \<longleftrightarrow> i = last (snd g))"
proof -
  have same: "g = h"
    if "g \<in> set (groups rank ks)" "h \<in> set (groups rank ks)" "i \<in> set (snd g)" "i \<in> set (snd h)"
    for g h i
  proof -
    from row_of_group [OF that(1,3)] row_of_group [OF that(2,4)]
    have "fst g = fst h" "snd g = positions (fst g) ks" "snd h = positions (fst h) ks"
      by simp_all
    then show ?thesis by (simp add: prod_eq_iff)
  qed
  have d: "distinct (map fst (groups rank ks))"
    by (simp add: map_fst_groups distinct_group_keys)
  have one: "\<exists>!g. g \<in> set (groups rank ks) \<and> i \<in> set (snd g)"
    if "i < length ks" "ks ! i \<noteq> None" for i
  proof -
    from that(2) obtain k where k: "ks ! i = Some k" by auto
    from group_of_row(1) [OF that(1) k, where rank = rank] group_of_row(2) [OF that(1) k]
    have m: "(k, positions k ks) \<in> set (groups rank ks) \<and> i \<in> set (snd (k, positions k ks))"
      by simp
    show ?thesis
    proof (rule ex1I)
      from m show "(k, positions k ks) \<in> set (groups rank ks) \<and> i \<in> set (snd (k, positions k ks))" .
    next
      fix h assume "h \<in> set (groups rank ks) \<and> i \<in> set (snd h)"
      then have h: "h \<in> set (groups rank ks)" "i \<in> set (snd h)" by simp_all
      from m have p: "(k, positions k ks) \<in> set (groups rank ks)"
        "i \<in> set (snd (k, positions k ks))" by simp_all
      from same [OF h(1) p(1) h(2) p(2)] show "h = (k, positions k ks)" .
    qed
  qed
  have none: "\<not> (\<exists>g. g \<in> set (groups rank ks) \<and> i \<in> set (snd g))"
    if "i < length ks" "ks ! i = None" for i
  proof
    assume "\<exists>g. g \<in> set (groups rank ks) \<and> i \<in> set (snd g)"
    then obtain g where "g \<in> set (groups rank ks)" "i \<in> set (snd g)" by blast
    from row_of_group(2) [OF this] that(2) show False by simp
  qed
  have un: "(\<Union>g\<in>set (groups rank ks). set (snd g)) = {i. i < length ks \<and> ks ! i \<noteq> None}"
  proof (intro set_eqI iffI)
    fix i assume "i \<in> (\<Union>g\<in>set (groups rank ks). set (snd g))"
    then obtain g where "g \<in> set (groups rank ks)" "i \<in> set (snd g)" by blast
    from row_of_group(1,2) [OF this] show "i \<in> {i. i < length ks \<and> ks ! i \<noteq> None}" by simp
  next
    fix i assume "i \<in> {i. i < length ks \<and> ks ! i \<noteq> None}"
    then have "i < length ks" "ks ! i \<noteq> None" by simp_all
    from one [OF this] show "i \<in> (\<Union>g\<in>set (groups rank ks). set (snd g))" by blast
  qed
  have dis: "set (snd g) \<inter> set (snd h) = {}"
    if "g \<in> set (groups rank ks)" "h \<in> set (groups rank ks)" "g \<noteq> h" for g h
  proof (rule ccontr)
    assume "set (snd g) \<inter> set (snd h) \<noteq> {}"
    then obtain i where i: "i \<in> set (snd g)" "i \<in> set (snd h)" by blast
    from same [OF that(1,2) i] have "g = h" .
    with that(3) show False by simp
  qed
  have c2: "\<forall>i<length ks. ks ! i \<noteq> None \<longrightarrow> (\<exists>!g. g \<in> set (groups rank ks) \<and> i \<in> set (snd g))"
    using one by (intro allI impI)
  have c3: "\<forall>i<length ks. ks ! i = None \<longrightarrow> \<not> (\<exists>g. g \<in> set (groups rank ks) \<and> i \<in> set (snd g))"
    using none by (intro allI impI)
  have c5: "\<forall>g\<in>set (groups rank ks). \<forall>h\<in>set (groups rank ks).
      g \<noteq> h \<longrightarrow> set (snd g) \<inter> set (snd h) = {}"
    using dis by (intro ballI impI)
  have c6: "\<forall>g\<in>set (groups rank ks). \<forall>i\<in>set (snd g). tail_mask ks ! i \<longleftrightarrow> i = last (snd g)"
    using tail_mask_in_group by (intro ballI)
  from d c2 c3 un c5 c6 show ?thesis
    by (intro conjI)
qed

theorem groups_partition_present_keys_witness:
  "(\<exists>!g. g \<in> set (groups frank [Some (Fin 5), None, Some (Fin 3), Some (Fin 5)]) \<and> 3 \<in> set (snd g))
   \<and> \<not> (\<exists>g. g \<in> set (groups frank [Some (Fin 5), None, Some (Fin 3), Some (Fin 5)]) \<and> 1 \<in> set (snd g))"
proof -
  let ?ks = "[Some (Fin 5), None, Some (Fin 3), Some (Fin 5)]"
  have a: "3 < length ?ks" "?ks ! 3 \<noteq> None" by simp_all
  have b: "1 < length ?ks" "?ks ! 1 = None" by simp_all
  note t = groups_partition_present_keys [of frank ?ks]
  from t [THEN conjunct2, THEN conjunct1, rule_format, OF a]
    t [THEN conjunct2, THEN conjunct2, THEN conjunct1, rule_format, OF b]
  show ?thesis by (rule conjI)
qed

section \<open>The order of the groups\<close>



lemma groupby_mean_numeric:
  assumes "getitem df K = Inr (NumCol ks)" "getitem df V = Inr (NumCol vs)" "K \<noteq> V"
  shows "groupby_mean ops df K V =
    Inr \<lparr>index = [0..<length (groups frank (map num_key ks))],
         cols = [(K, NumCol (map fst (groups frank (map num_key ks)))),
                 (V, NumCol (group_means ops (groups frank (map num_key ks)) vs))]\<rparr>"
  using assms by (simp add: groupby_mean_def Let_def)





section \<open>The last row of a group\<close>




section \<open>Derivations leave the other fields alone\<close>

lemma length_as_floats: "as_floats c = Inr xs \<Longrightarrow> length xs = col_len c"
  by (cases c) (auto split: if_splits)

lemma list_all_update:
  "list_all P al \<Longrightarrow> P (k, v) \<Longrightarrow> list_all P (AList.update k v al)"
  by (induction al) auto

lemma keys_setitem:
  "map fst (cols (setitem df n c)) =
    (if n \<in> set (map fst (cols df)) then map fst (cols df) else map fst (cols df) @ [n])"
  by (simp add: setitem_def update_keys)

lemma wf_frame_setitem:
  "wf_frame df \<Longrightarrow> col_len c = length (index df) \<Longrightarrow> wf_frame (setitem df n c)"
  by (simp add: wf_frame_def setitem_def distinct_update list_all_update)

lemma wf_frame_getitem: "wf_frame df \<Longrightarrow> getitem df n = Inr c \<Longrightarrow> col_len c = length (index df)"
proof -
  assume w: "wf_frame df" and g: "getitem df n = Inr c"
  from g have "map_of (cols df) n = Some c"
    by (simp add: getitem_def split: option.splits)
  then have "(n, c) \<in> set (cols df)"
    by (rule map_of_SomeD)
  with w show ?thesis
    by (auto simp: wf_frame_def list_all_iff)
qed

lemma create_derived_metrics_result:
  assumes "create_derived_metrics sub df = Inr df'"
  obtains a b xs ys where "getitem df ''how_many_steps_agents_made'' = Inr a"
    "getitem df ''total_agents_path_length'' = Inr b" "as_floats a = Inr xs" "as_floats b = Inr ys"
    "df' = setitem (setitem df ''extra_steps'' (NumCol (map2 (fsub sub) xs ys))) ''extra_steps''
      (NumCol (map (clip_lower (Fin 0)) (map2 (fsub sub) xs ys)))"
  using assms
  by (auto simp: create_derived_metrics_def col_sub_def col_clip_lower_def getitem_setitem
      split: sum.splits)


lemma path_efficiency_result:
  assumes "path_efficiency s = Inr s'"
  obtains c where "s' = s\<lparr>final_var := setitem (final_var s) ''path_efficiency'' c\<rparr>"
  using assms by (auto simp: path_efficiency_def split: sum.splits)

text \<open>
  C9, as stated, fails on a frame that already has a field named like the derived one: the
  assignment replaces that field (here 100 becomes 0) and appends nothing.
\<close>

theorem derivation_replaces_same_name_counterexample:
  "create_derived_metrics sub_int64
     \<lparr>index = [0], cols = [(''how_many_steps_agents_made'', NumCol [Fin 3]),
        (''extra_steps'', NumCol [Fin 100]),
        (''total_agents_path_length'', NumCol [Fin 10])]\<rparr>
   = Inr \<lparr>index = [0], cols = [(''how_many_steps_agents_made'', NumCol [Fin 3]),
        (''extra_steps'', NumCol [Fin 0]),
        (''total_agents_path_length'', NumCol [Fin 10])]\<rparr>"
proof -
  have "sub_int64 3 10 = Fin (- 7)"
    by (simp add: sub_int64_def wrap64_def)
  then show ?thesis
    by (simp add: create_derived_metrics_def getitem_def setitem_def col_sub_def
        col_clip_lower_def clip_lower_def)
qed

text \<open>
  C9, amended. A derivation that succeeds keeps the row labels (so the record count and the
  order of the records), leaves every field other than the one named like the derived field as
  it was, and keeps the order of the fields: the derived field is appended as the last field
  when the frame has no field of that name, and replaces the field of that name otherwise. A
  well-formed frame stays well-formed, the derived field holding one value per record. This
  holds of the extra steps and of the path efficiency.
\<close>

theorem derivation_appends:
  "(create_derived_metrics sub df = Inr df' \<longrightarrow>
      index df' = index df
      \<and> (\<forall>n. n \<noteq> ''extra_steps'' \<longrightarrow> getitem df' n = getitem df n)
      \<and> map fst (cols df') =
          (if ''extra_steps'' \<in> set (map fst (cols df)) then map fst (cols df)
           else map fst (cols df) @ [''extra_steps''])
      \<and> (wf_frame df \<longrightarrow> wf_frame df'
            \<and> (\<exists>es. getitem df' ''extra_steps'' = Inr (NumCol es) \<and> length es = length (index df))))
   \<and> (path_efficiency s = Inr s' \<longrightarrow>
      df_var s' = df_var s \<and> shown s' = shown s
      \<and> index (final_var s') = index (final_var s)
      \<and> (\<forall>n. n \<noteq> ''path_efficiency'' \<longrightarrow> getitem (final_var s') n = getitem (final_var s) n)
      \<and> map fst (cols (final_var s')) =
          (if ''path_efficiency'' \<in> set (map fst (cols (final_var s)))
           then map fst (cols (final_var s))
           else map fst (cols (final_var s)) @ [''path_efficiency'']))"
proof -
  have one: "index df' = index df
      \<and> (\<forall>n. n \<noteq> ''extra_steps'' \<longrightarrow> getitem df' n = getitem df n)
      \<and> map fst (cols df') =
          (if ''extra_steps'' \<in> set (map fst (cols df)) then map fst (cols df)
           else map fst (cols df) @ [''extra_steps''])
      \<and> (wf_frame df \<longrightarrow> wf_frame df'
            \<and> (\<exists>es. getitem df' ''extra_steps'' = Inr (NumCol es) \<and> length es = length (index df)))"
    if run: "create_derived_metrics sub df = Inr df'"
  proof -
    from run obtain a b xs ys where a: "getitem df ''how_many_steps_agents_made'' = Inr a"
      and b: "getitem df ''total_agents_path_length'' = Inr b"
      and xs: "as_floats a = Inr xs" and ys: "as_floats b = Inr ys"
      and df': "df' = setitem (setitem df ''extra_steps'' (NumCol (map2 (fsub sub) xs ys)))
          ''extra_steps'' (NumCol (map (clip_lower (Fin 0)) (map2 (fsub sub) xs ys)))"
      by (rule create_derived_metrics_result)
    let ?d = "map2 (fsub sub) xs ys"
    let ?es = "map (clip_lower (Fin 0)) ?d"
    have i: "index df' = index df"
      unfolding df' by (simp add: index_setitem)
    have g: "\<forall>n. n \<noteq> ''extra_steps'' \<longrightarrow> getitem df' n = getitem df n"
      unfolding df' by (simp add: getitem_setitem)
    have k: "map fst (cols df') =
          (if ''extra_steps'' \<in> set (map fst (cols df)) then map fst (cols df)
           else map fst (cols df) @ [''extra_steps''])"
      unfolding df' by (simp add: keys_setitem)
    have w: "wf_frame df' \<and> (\<exists>es. getitem df' ''extra_steps'' = Inr (NumCol es)
        \<and> length es = length (index df))" if wf: "wf_frame df"
    proof -
      from wf a b have "col_len a = length (index df)" "col_len b = length (index df)"
        by (simp_all add: wf_frame_getitem)
      with xs ys have l: "length ?d = length (index df)" "length ?es = length (index df)"
        by (simp_all add: length_as_floats)
      from wf l(1) have "wf_frame (setitem df ''extra_steps'' (NumCol ?d))"
        by (simp add: wf_frame_setitem)
      with l(2) have "wf_frame df'"
        unfolding df' by (simp add: wf_frame_setitem index_setitem)
      moreover have "getitem df' ''extra_steps'' = Inr (NumCol ?es)"
        unfolding df' by (simp add: getitem_setitem)
      ultimately show ?thesis using l(2) by (intro conjI exI [of _ ?es])
    qed
    from w have w': "wf_frame df \<longrightarrow> wf_frame df'
        \<and> (\<exists>es. getitem df' ''extra_steps'' = Inr (NumCol es) \<and> length es = length (index df))"
      by (rule impI)
    from i g k w' show ?thesis by (intro conjI)
  qed
  have two: "df_var s' = df_var s \<and> shown s' = shown s
      \<and> index (final_var s') = index (final_var s)
      \<and> (\<forall>n. n \<noteq> ''path_efficiency'' \<longrightarrow> getitem (final_var s') n = getitem (final_var s) n)
      \<and> map fst (cols (final_var s')) =
          (if ''path_efficiency'' \<in> set (map fst (cols (final_var s)))
           then map fst (cols (final_var s))
           else map fst (cols (final_var s)) @ [''path_efficiency''])"
    if run: "path_efficiency s = Inr s'"
  proof -
    from run obtain c where s': "s' = s\<lparr>final_var := setitem (final_var s) ''path_efficiency'' c\<rparr>"
      by (rule path_efficiency_result)
    show ?thesis
      unfolding s' by (simp add: index_setitem getitem_setitem keys_setitem)
  qed
  show ?thesis
    by (rule conjI; rule impI) (erule one, erule two)
qed

theorem derivation_appends_witness:
  "(\<exists>df'. create_derived_metrics sub_int64
      \<lparr>index = [4, 2], cols = [(''timestamp'', ObjCol [Some ''a'', None]),
        (''how_many_steps_agents_made'', NumCol [Fin 3, Fin 10]),
        (''total_agents_path_length'', NumCol [Fin 10, Fin 3])]\<rparr> = Inr df'
    \<and> index df' = [4, 2]
    \<and> getitem df' ''timestamp'' = Inr (ObjCol [Some ''a'', None])
    \<and> getitem df' ''how_many_steps_agents_made'' = Inr (NumCol [Fin 3, Fin 10])
    \<and> getitem df' ''total_agents_path_length'' = Inr (NumCol [Fin 10, Fin 3])
    \<and> map fst (cols df') = [''timestamp'', ''how_many_steps_agents_made'',
         ''total_agents_path_length'', ''extra_steps'']
    \<and> wf_frame df')"
proof -
  let ?df = "\<lparr>index = [4, 2], cols = [(''timestamp'', ObjCol [Some ''a'', None]),
        (''how_many_steps_agents_made'', NumCol [Fin 3, Fin 10]),
        (''total_agents_path_length'', NumCol [Fin 10, Fin 3])]\<rparr>"
  have a: "getitem ?df ''how_many_steps_agents_made'' = Inr (NumCol [Fin 3, Fin 10])"
    and b: "getitem ?df ''total_agents_path_length'' = Inr (NumCol [Fin 10, Fin 3])"
    and c: "getitem ?df ''timestamp'' = Inr (ObjCol [Some ''a'', None])"
    by (simp_all add: getitem_def)
  from create_derived_metrics_numeric [OF a b, of sub_int64]
  obtain df' where run: "create_derived_metrics sub_int64 ?df = Inr df'"
    by blast
  have w: "wf_frame ?df"
    by (simp add: wf_frame_def)
  have k: "map fst (cols ?df) = [''timestamp'', ''how_many_steps_agents_made'',
      ''total_agents_path_length'']"
    by simp
  note t = derivation_appends [where sub = sub_int64 and df = ?df and df' = df',
      THEN conjunct1, THEN mp, OF run]
  from t have "index df' = index ?df" by (rule conjunct1)
  then have i: "index df' = [4, 2]" by simp
  from t [THEN conjunct2, THEN conjunct1] a b c
  have g: "getitem df' ''timestamp'' = Inr (ObjCol [Some ''a'', None])"
    "getitem df' ''how_many_steps_agents_made'' = Inr (NumCol [Fin 3, Fin 10])"
    "getitem df' ''total_agents_path_length'' = Inr (NumCol [Fin 10, Fin 3])"
    by simp_all
  from t [THEN conjunct2, THEN conjunct2, THEN conjunct1]
  have n: "map fst (cols df') = [''timestamp'', ''how_many_steps_agents_made'',
         ''total_agents_path_length'', ''extra_steps'']"
    unfolding k by simp
  from t [THEN conjunct2, THEN conjunct2, THEN conjunct2, THEN mp, OF w]
  have w': "wf_frame df'" by (rule conjunct1)
  from run i g n w' show ?thesis by (intro exI [of _ df'] conjI)
qed

section \<open>Timestamps that do not parse\<close>

lemma coerce_timestamp_run:
  assumes "getitem df ''timestamp'' = Inr c"
  shows "coerce_timestamp parse epoch df = Inr (setitem df ''timestamp'' (to_datetime_coerce parse epoch c))"
  using assms by (simp add: coerce_timestamp_def)

lemma parse_dates_col_unparsed:
  assumes "Some t \<in> set xs" "parse t = None"
  shows "parse_dates_col parse text_of (ObjCol xs) = ObjCol xs"
proof -
  from assms have "\<not> parses parse (Some t)"
    by (simp add: parses_def)
  with assms(1) have "\<not> list_all (parses parse) xs"
    by (auto simp: list_all_iff)
  then show ?thesis by simp
qed

lemma getitem_setitem_same:
  assumes "getitem df n = Inr c"
  shows "getitem (setitem df n c) m = getitem df m"
  using assms by (simp add: getitem_setitem)

text \<open>
  C7, as stated, fails for the scripts that read with \<^verbatim>\<open>parse_dates\<close>: one timestamp
  text that is not a date leaves the whole column as the text read, and no row gets the
  "not a time" marker.
\<close>

theorem parse_dates_keeps_text_counterexample:
  "read_csv_parse_dates (map_of [(''2024-01-01 10:00:00'', 1704103200)]) (\<lambda>x. ''0'')
     \<lparr>index = [0, 1], cols = [
        (''timestamp'', ObjCol [Some ''2024-01-01 10:00:00'', Some ''garbage'']),
        (''method_name'', ObjCol [Some ''GRID'', Some ''GRID''])]\<rparr>
   = Inr \<lparr>index = [0, 1], cols = [
        (''timestamp'', ObjCol [Some ''2024-01-01 10:00:00'', Some ''garbage'']),
        (''method_name'', ObjCol [Some ''GRID'', Some ''GRID''])]\<rparr>"
  by (simp add: read_csv_parse_dates_def getitem_def setitem_def parses_def)

text \<open>
  C7, amended. Where the timestamp column is text: the conversion with
  \<^verbatim>\<open>errors="coerce"\<close> never fails, keeps the row labels and every other field, and stores
  on every row the instant its text stands for, so the "not a time" marker on every row
  whose text does not parse. Reading with \<^verbatim>\<open>parse_dates\<close> never fails either and keeps
  every row, but as soon as one text does not parse it stores no marker: the frame is left
  as it was read, the timestamp column as text.
\<close>

theorem unparsable_timestamp:
  assumes "getitem df ''timestamp'' = Inr (ObjCol xs)"
  shows "(\<exists>df' ts. coerce_timestamp parse epoch df = Inr df'
      \<and> index df' = index df
      \<and> (\<forall>n. n \<noteq> ''timestamp'' \<longrightarrow> getitem df' n = getitem df n)
      \<and> getitem df' ''timestamp'' = Inr (TimeCol ts)
      \<and> length ts = length xs
      \<and> (\<forall>i<length xs. \<forall>t. xs ! i = Some t \<longrightarrow> ts ! i = parse t)
      \<and> (\<forall>i<length xs. \<forall>t. xs ! i = Some t \<and> parse t = None \<longrightarrow> ts ! i = None))
    \<and> (\<exists>df'. read_csv_parse_dates parse text_of df = Inr df' \<and> index df' = index df
      \<and> (\<forall>n. n \<noteq> ''timestamp'' \<longrightarrow> getitem df' n = getitem df n)
      \<and> ((\<exists>t. Some t \<in> set xs \<and> parse t = None) \<longrightarrow>
            getitem df' ''timestamp'' = Inr (ObjCol xs)))"
proof -
  let ?ts = "map (\<lambda>x. case x of None \<Rightarrow> None | Some s \<Rightarrow> parse s) xs"
  let ?df1 = "setitem df ''timestamp'' (TimeCol ?ts)"
  from assms have run1: "coerce_timestamp parse epoch df = Inr ?df1"
    by (simp add: coerce_timestamp_def)
  have i1: "index ?df1 = index df"
    by (simp add: index_setitem)
  have g1: "\<forall>n. n \<noteq> ''timestamp'' \<longrightarrow> getitem ?df1 n = getitem df n"
    by (simp add: getitem_setitem)
  have c1: "getitem ?df1 ''timestamp'' = Inr (TimeCol ?ts)"
    by (simp add: getitem_setitem)
  have l1: "length ?ts = length xs"
    by simp
  have p1: "\<forall>i<length xs. \<forall>t. xs ! i = Some t \<longrightarrow> ?ts ! i = parse t"
    by simp
  have n1: "\<forall>i<length xs. \<forall>t. xs ! i = Some t \<and> parse t = None \<longrightarrow> ?ts ! i = None"
    by simp
  from run1 i1 g1 c1 l1 p1 n1
  have one: "\<exists>df' ts. coerce_timestamp parse epoch df = Inr df'
      \<and> index df' = index df
      \<and> (\<forall>n. n \<noteq> ''timestamp'' \<longrightarrow> getitem df' n = getitem df n)
      \<and> getitem df' ''timestamp'' = Inr (TimeCol ts)
      \<and> length ts = length xs
      \<and> (\<forall>i<length xs. \<forall>t. xs ! i = Some t \<longrightarrow> ts ! i = parse t)
      \<and> (\<forall>i<length xs. \<forall>t. xs ! i = Some t \<and> parse t = None \<longrightarrow> ts ! i = None)"
    by (intro exI [of _ ?df1] exI [of _ ?ts] conjI)
  let ?df2 = "setitem df ''timestamp'' (parse_dates_col parse text_of (ObjCol xs))"
  from assms have run2: "read_csv_parse_dates parse text_of df = Inr ?df2"
    by (simp add: read_csv_parse_dates_def)
  have i2: "index ?df2 = index df"
    by (simp add: index_setitem)
  have g2: "\<forall>n. n \<noteq> ''timestamp'' \<longrightarrow> getitem ?df2 n = getitem df n"
    by (simp add: getitem_setitem)
  have c2: "(\<exists>t. Some t \<in> set xs \<and> parse t = None) \<longrightarrow>
      getitem ?df2 ''timestamp'' = Inr (ObjCol xs)"
  proof
    assume "\<exists>t. Some t \<in> set xs \<and> parse t = None"
    then obtain t where "Some t \<in> set xs" "parse t = None" by blast
    then have "parse_dates_col parse text_of (ObjCol xs) = ObjCol xs"
      by (rule parse_dates_col_unparsed)
    then show "getitem ?df2 ''timestamp'' = Inr (ObjCol xs)"
      by (simp add: getitem_setitem)
  qed
  from run2 i2 g2 c2
  have two: "\<exists>df'. read_csv_parse_dates parse text_of df = Inr df' \<and> index df' = index df
      \<and> (\<forall>n. n \<noteq> ''timestamp'' \<longrightarrow> getitem df' n = getitem df n)
      \<and> ((\<exists>t. Some t \<in> set xs \<and> parse t = None) \<longrightarrow>
            getitem df' ''timestamp'' = Inr (ObjCol xs))"
    by (intro exI [of _ ?df2] conjI)
  from one two show ?thesis by (rule conjI)
qed

theorem unparsable_timestamp_witness:
  "(\<exists>df'. coerce_timestamp (map_of [(''2024-01-01 10:00:00'', 1704103200)]) Map.empty
      \<lparr>index = [0, 1, 2], cols = [
        (''timestamp'', ObjCol [Some ''2024-01-01 10:00:00'', Some ''garbage'', None]),
        (''clicks_on_dots'', NumCol [Fin 1, Fin 2, Fin 3])]\<rparr> = Inr df'
    \<and> index df' = [0, 1, 2]
    \<and> getitem df' ''timestamp'' = Inr (TimeCol [Some 1704103200, None, None])
    \<and> getitem df' ''clicks_on_dots'' = Inr (NumCol [Fin 1, Fin 2, Fin 3]))"
proof -
  let ?df = "\<lparr>index = [0, 1, 2], cols = [
        (''timestamp'', ObjCol [Some ''2024-01-01 10:00:00'', Some ''garbage'', None]),
        (''clicks_on_dots'', NumCol [Fin 1, Fin 2, Fin 3])]\<rparr>"
  let ?parse = "map_of [(''2024-01-01 10:00:00'', 1704103200 :: int)]"
  have a: "getitem ?df ''timestamp''
      = Inr (ObjCol [Some ''2024-01-01 10:00:00'', Some ''garbage'', None])"
    by (simp add: getitem_def)
  have c: "getitem ?df ''clicks_on_dots'' = Inr (NumCol [Fin 1, Fin 2, Fin 3])"
    by (simp add: getitem_def)
  from unparsable_timestamp [OF a, of ?parse Map.empty, THEN conjunct1]
  obtain df' ts where run: "coerce_timestamp ?parse Map.empty ?df = Inr df'"
    and i: "index df' = index ?df"
    and g: "\<forall>n. n \<noteq> ''timestamp'' \<longrightarrow> getitem df' n = getitem ?df n"
    and t: "getitem df' ''timestamp'' = Inr (TimeCol ts)"
    and l: "length ts = length [Some ''2024-01-01 10:00:00'', Some ''garbage'', None]"
    by blast
  have e: "coerce_timestamp ?parse Map.empty ?df
      = Inr (setitem ?df ''timestamp'' (TimeCol [Some 1704103200, None, None]))"
    by (simp add: coerce_timestamp_def getitem_def)
  with run have "df' = setitem ?df ''timestamp'' (TimeCol [Some 1704103200, None, None])"
    by simp
  then have t': "getitem df' ''timestamp'' = Inr (TimeCol [Some 1704103200, None, None])"
    by (simp add: getitem_setitem)
  from i have i': "index df' = [0, 1, 2]" by simp
  from g c have c': "getitem df' ''clicks_on_dots'' = Inr (NumCol [Fin 1, Fin 2, Fin 3])"
    by simp
  from run i' t' c' show ?thesis by (intro exI [of _ df'] conjI)
qed

section \<open>The shared range of the two axes\<close>















section \<open>The mean of a group\<close>

lemma group_mean_absent: "list_all (\<lambda>x. x = NaN) xs \<Longrightarrow> group_mean ops xs = NaN"
proof -
  assume "list_all (\<lambda>x. x = NaN) xs"
  then have "filter (\<lambda>x. x \<noteq> NaN) xs = []"
    by (simp add: filter_empty_conv list_all_iff)
  then show ?thesis by (simp add: group_mean_def)
qed

lemma group_mean_present:
  "filter (\<lambda>x. x \<noteq> NaN) xs \<noteq> [] \<Longrightarrow>
    group_mean ops xs = fl_div ops (fl_sum ops (filter (\<lambda>x. x \<noteq> NaN) xs))
      (length (filter (\<lambda>x. x \<noteq> NaN) xs))"
  by (simp add: group_mean_def Let_def)

text \<open>
  C6, as stated, fails on large values: the float64 sum of the two present values below
  is infinite, and so is the mean, where the arithmetic mean is \<open>2^1023\<close>.
\<close>

theorem mean_overflow_counterexample:
  "group_mean range_ops [Fin (2 ^ 1023), NaN, Fin (2 ^ 1023)] = PInf"
  by (simp add: group_mean_def range_ops_def overflowing_def)


text \<open>
  C6, amended. Whatever the float64 arithmetic is: a group in which every value is absent
  has an absent mean, with no error and no division; otherwise the mean is the float64 sum of
  the present values divided by their count. It is the arithmetic mean of the present values
  when these are finite and their sum and the quotient are exact. The frame of means holds,
  for every group, the mean of the values of the rows of the group. Values 10, 20, 30 (whose
  sum 60 and quotient 20 are exact) give 20; two absent values give an absent mean.
\<close>

theorem mean_of_present_values:
  "(list_all (\<lambda>x. x = NaN) xs \<longrightarrow> group_mean ops xs = NaN)
   \<and> (filter (\<lambda>x. x \<noteq> NaN) xs \<noteq> [] \<longrightarrow>
        group_mean ops xs = fl_div ops (fl_sum ops (filter (\<lambda>x. x \<noteq> NaN) xs))
          (length (filter (\<lambda>x. x \<noteq> NaN) xs)))
   \<and> (filter (\<lambda>x. x \<noteq> NaN) xs = map Fin rs \<and> rs \<noteq> []
        \<and> fl_sum ops (map Fin rs) = Fin (sum_list rs)
        \<and> fl_div ops (Fin (sum_list rs)) (length rs) = Fin (sum_list rs / real (length rs))
        \<longrightarrow> group_mean ops xs = Fin (sum_list rs / real (length rs)))
   \<and> (getitem df K = Inr (NumCol ks) \<and> getitem df V = Inr (NumCol vs) \<and> K \<noteq> V \<longrightarrow>
        (\<exists>g. groupby_mean ops df K V = Inr g
           \<and> getitem g V = Inr (NumCol (map (\<lambda>(k, ps). group_mean ops (map (\<lambda>i. vs ! i) ps))
                (groups frank (map num_key ks))))))
   \<and> (fl_sum ops [Fin 10, Fin 20, Fin 30] = Fin 60 \<and> fl_div ops (Fin 60) 3 = Fin 20 \<longrightarrow>
        group_mean ops [Fin 10, Fin 20, Fin 30] = Fin 20)
   \<and> group_mean ops [NaN, NaN] = NaN"
proof -
  have a: "list_all (\<lambda>x. x = NaN) xs \<longrightarrow> group_mean ops xs = NaN"
    using group_mean_absent by (rule impI)
  have b: "filter (\<lambda>x. x \<noteq> NaN) xs \<noteq> [] \<longrightarrow>
        group_mean ops xs = fl_div ops (fl_sum ops (filter (\<lambda>x. x \<noteq> NaN) xs))
          (length (filter (\<lambda>x. x \<noteq> NaN) xs))"
    using group_mean_present by (rule impI)
  have c: "filter (\<lambda>x. x \<noteq> NaN) xs = map Fin rs \<and> rs \<noteq> []
        \<and> fl_sum ops (map Fin rs) = Fin (sum_list rs)
        \<and> fl_div ops (Fin (sum_list rs)) (length rs) = Fin (sum_list rs / real (length rs))
        \<longrightarrow> group_mean ops xs = Fin (sum_list rs / real (length rs))"
    by (simp add: group_mean_def Let_def)
  have d: "getitem df K = Inr (NumCol ks) \<and> getitem df V = Inr (NumCol vs) \<and> K \<noteq> V \<longrightarrow>
        (\<exists>g. groupby_mean ops df K V = Inr g
           \<and> getitem g V = Inr (NumCol (map (\<lambda>(k, ps). group_mean ops (map (\<lambda>i. vs ! i) ps))
                (groups frank (map num_key ks)))))"
  proof
    assume h: "getitem df K = Inr (NumCol ks) \<and> getitem df V = Inr (NumCol vs) \<and> K \<noteq> V"
    let ?g = "\<lparr>index = [0..<length (groups frank (map num_key ks))],
         cols = [(K, NumCol (map fst (groups frank (map num_key ks)))),
                 (V, NumCol (group_means ops (groups frank (map num_key ks)) vs))]\<rparr>"
    from h have "groupby_mean ops df K V = Inr ?g"
      by (simp add: groupby_mean_numeric)
    moreover from h have "V \<noteq> K" by blast
    then have "getitem ?g V = Inr (NumCol (map (\<lambda>(k, ps). group_mean ops (map (\<lambda>i. vs ! i) ps))
                (groups frank (map num_key ks))))"
      by (simp add: getitem_def group_means_def)
    ultimately show "\<exists>g. groupby_mean ops df K V = Inr g
           \<and> getitem g V = Inr (NumCol (map (\<lambda>(k, ps). group_mean ops (map (\<lambda>i. vs ! i) ps))
                (groups frank (map num_key ks))))"
      by (intro exI [of _ ?g] conjI)
  qed
  have e: "fl_sum ops [Fin 10, Fin 20, Fin 30] = Fin 60 \<and> fl_div ops (Fin 60) 3 = Fin 20 \<longrightarrow>
        group_mean ops [Fin 10, Fin 20, Fin 30] = Fin 20"
    by (simp add: group_mean_def eval_nat_numeral)
  have f: "group_mean ops [NaN, NaN] = NaN"
    by (simp add: group_mean_def)
  from a b c d e f show ?thesis by (intro conjI)
qed

theorem mean_of_present_values_witness:
  "group_mean exact_ops [Fin 10, NaN, Fin 20, Fin 30] = Fin 20
   \<and> group_mean exact_ops [NaN, NaN] = NaN
   \<and> (\<exists>g. groupby_mean exact_ops
        \<lparr>index = [0, 1, 2, 3], cols = [(''start_points'', NumCol [Fin 2, Fin 1, Fin 2, Fin 2]),
          (''time_to_finish_in_micros'', NumCol [Fin 10, NaN, Fin 20, Fin 30])]\<rparr>
        ''start_points'' ''time_to_finish_in_micros'' = Inr g
      \<and> getitem g ''time_to_finish_in_micros'' = Inr (NumCol [NaN, Fin 20]))"
proof -
  let ?df = "\<lparr>index = [0, 1, 2, 3], cols = [(''start_points'', NumCol [Fin 2, Fin 1, Fin 2, Fin 2]),
          (''time_to_finish_in_micros'', NumCol [Fin 10, NaN, Fin 20, Fin 30])]\<rparr>"
  note t = mean_of_present_values [where ops = exact_ops and xs = "[Fin 10, NaN, Fin 20, Fin 30]"
      and rs = "[10, 20, 30]" and df = ?df and K = "''start_points''"
      and V = "''time_to_finish_in_micros''" and ks = "[Fin 2, Fin 1, Fin 2, Fin 2]"
      and vs = "[Fin 10, NaN, Fin 20, Fin 30]"]
  have h: "filter (\<lambda>x. x \<noteq> NaN) [Fin 10, NaN, Fin 20, Fin 30] = map Fin [10, 20, 30]
      \<and> [10, 20, 30 :: real] \<noteq> []
      \<and> fl_sum exact_ops (map Fin [10, 20, 30]) = Fin (sum_list [10, 20, 30])
      \<and> fl_div exact_ops (Fin (sum_list [10, 20, 30])) (length [10, 20, 30 :: real])
          = Fin (sum_list [10, 20, 30] / real (length [10, 20, 30 :: real]))"
    by (simp add: exact_ops_def)
  from t [THEN conjunct2, THEN conjunct2, THEN conjunct1, THEN mp, OF h]
  have a: "group_mean exact_ops [Fin 10, NaN, Fin 20, Fin 30] = Fin 20"
    by simp
  note b = t [THEN conjunct2, THEN conjunct2, THEN conjunct2, THEN conjunct2, THEN conjunct2]
  have k: "getitem ?df ''start_points'' = Inr (NumCol [Fin 2, Fin 1, Fin 2, Fin 2])
      \<and> getitem ?df ''time_to_finish_in_micros'' = Inr (NumCol [Fin 10, NaN, Fin 20, Fin 30])
      \<and> ''start_points'' \<noteq> ''time_to_finish_in_micros''"
    by (simp add: getitem_def)
  have m: "map (\<lambda>(k, ps). group_mean exact_ops (map (\<lambda>i. [Fin 10, NaN, Fin 20, Fin 30] ! i) ps))
      (groups frank (map num_key [Fin 2, Fin 1, Fin 2, Fin 2])) = [NaN, Fin 20]"
    by code_simp
  from t [THEN conjunct2, THEN conjunct2, THEN conjunct2, THEN conjunct1, THEN mp, OF k]
  have c: "\<exists>g. groupby_mean exact_ops ?df ''start_points'' ''time_to_finish_in_micros'' = Inr g
      \<and> getitem g ''time_to_finish_in_micros'' = Inr (NumCol [NaN, Fin 20])"
    unfolding m .
  from a b c show ?thesis by (intro conjI)
qed

end
